theory Spec2Isabelle
  imports
    Complex_Main
    "HOL-Library.Char_ord"
    "HOL-Library.List_Lexorder"
    "HOL-Library.Product_Lexorder"
begin

section \<open>Python values used by \<^verbatim>\<open>app.py\<close>\<close>

text \<open>
  A Python \<^verbatim>\<open>str\<close> is modelled as a \<^typ>\<open>string\<close> whose characters are the code
  points below 256; \<^verbatim>\<open>str.lower\<close> and \<^verbatim>\<open>str.isspace\<close> are given for exactly
  these code points.  Strings are compared as Python compares them: lexicographically
  by code point, a proper prefix being smaller.  A float is modelled as a \<^typ>\<open>real\<close>.
\<close>

datatype py_error =
    FileNotFoundError
  | JSONDecodeError
  | KeyError
  | IndexError
  | ValueError
  | TypeError
  | AttributeError
  | RequestException

definition lower_char :: "char \<Rightarrow> char" where
  "lower_char c =
     (let n = (of_char c :: nat)
      in if (65 \<le> n \<and> n \<le> 90) \<or> (192 \<le> n \<and> n \<le> 222 \<and> n \<noteq> 215)
         then char_of (n + 32) else c)"

definition isspace :: "char \<Rightarrow> bool" where
  "isspace c =
     (let n = (of_char c :: nat)
      in (9 \<le> n \<and> n \<le> 13) \<or> (28 \<le> n \<and> n \<le> 32) \<or> n = 133 \<or> n = 160)"

text \<open>\<^verbatim>\<open>s.lower()\<close>\<close>

definition lower :: "string \<Rightarrow> string" where
  "lower s = map lower_char s"

text \<open>
  Both forms of \<^verbatim>\<open>str.strip\<close> remove, from each end, the longest run of characters
  of a set: the whitespace characters for \<^verbatim>\<open>s.strip()\<close>, the characters of the
  argument for \<^verbatim>\<open>s.strip(chars)\<close>.
\<close>

definition strip_where :: "(char \<Rightarrow> bool) \<Rightarrow> string \<Rightarrow> string" where
  "strip_where p s = rev (dropWhile p (rev (dropWhile p s)))"

definition strip :: "string \<Rightarrow> string" where
  "strip s = strip_where isspace s"

definition strip_chars :: "string \<Rightarrow> string \<Rightarrow> string" where
  "strip_chars chars s = strip_where (\<lambda>c. c \<in> set chars) s"

text \<open>\<^verbatim>\<open>s.split(sep)\<close> for a separator of one character: \<open>cur\<close> holds the current
  piece, reversed.\<close>

fun split_acc :: "char \<Rightarrow> string \<Rightarrow> string \<Rightarrow> string list" where
  "split_acc sep cur [] = [rev cur]"
| "split_acc sep cur (x # xs) =
     (if x = sep then rev cur # split_acc sep [] xs else split_acc sep (x # cur) xs)"

definition split :: "char \<Rightarrow> string \<Rightarrow> string list" where
  "split sep s = split_acc sep [] s"

text \<open>
  \<^verbatim>\<open>s.split(sep, 1)\<close> for a separator of one character that occurs in \<open>s\<close>: the
  list has two parts, the text before the first occurrence and the text after it.
  They are given as a pair; the source reads them as \<^verbatim>\<open>parts[0]\<close> and
  \<^verbatim>\<open>parts[1]\<close> under the guard \<^verbatim>\<open>sep in s\<close>.
\<close>

definition split_once :: "char \<Rightarrow> string \<Rightarrow> string \<times> string" where
  "split_once sep s = (takeWhile (\<lambda>x. x \<noteq> sep) s, drop 1 (dropWhile (\<lambda>x. x \<noteq> sep) s))"

text \<open>\<^verbatim>\<open>s.replace(old, new)\<close>: every occurrence of \<open>old\<close>, found from the left and not
  overlapping, becomes \<open>new\<close>; an empty \<open>old\<close> matches before every character and at
  the end.\<close>

fun replace_from :: "string \<Rightarrow> string \<Rightarrow> string \<Rightarrow> string" where
  "replace_from old new [] = []"
| "replace_from old new (x # xs) =
     (if take (length old) (x # xs) = old
      then new @ replace_from old new (drop (length old - 1) xs)
      else x # replace_from old new xs)"

definition replace :: "string \<Rightarrow> string \<Rightarrow> string \<Rightarrow> string" where
  "replace old new s =
     (if old = [] then new @ concat (map (\<lambda>c. c # new) s) else replace_from old new s)"

section \<open>Catalog store\<close>

record book =
  title :: string
  author :: string
  available :: string

text \<open>
  A Python \<^verbatim>\<open>dict\<close> keeps its keys in insertion order; storing under a key that is
  present replaces the value and leaves the key where it is.
\<close>

type_synonym ('k, 'v) dict = "('k \<times> 'v) list"

fun dict_set :: "'k \<Rightarrow> 'v \<Rightarrow> ('k, 'v) dict \<Rightarrow> ('k, 'v) dict" where
  "dict_set k v [] = [(k, v)]"
| "dict_set k v (p # ps) = (if fst p = k then (k, v) # ps else p # dict_set k v ps)"

definition dict_keys :: "('k, 'v) dict \<Rightarrow> 'k list" where
  "dict_keys d = map fst d"

text \<open>\<^verbatim>\<open>d[k]\<close>\<close>

definition dict_get :: "('k, 'v) dict \<Rightarrow> 'k \<Rightarrow> py_error + 'v" where
  "dict_get d k = (case map_of d k of None \<Rightarrow> Inl KeyError | Some v \<Rightarrow> Inr v)"

type_synonym catalog_index = "(string \<times> string, string) dict"

text \<open>The dict comprehension of \<^verbatim>\<open>build_inventory_lookup\<close>, over a loaded inventory.\<close>

definition index_entry :: "catalog_index \<Rightarrow> book \<Rightarrow> catalog_index" where
  "index_entry d b = dict_set (strip (lower (title b)), strip (lower (author b))) (available b) d"

definition index_of :: "book list \<Rightarrow> catalog_index" where
  "index_of inventory = foldl index_entry [] inventory"

text \<open>
  \<^verbatim>\<open>load_inventory\<close> and \<^verbatim>\<open>build_inventory_lookup\<close> are wrapped in
  \<^verbatim>\<open>functools.lru_cache(maxsize=1)\<close> and take no argument: each holds at most one
  value, kept until \<^verbatim>\<open>cache_clear\<close>.  A call that raises stores nothing.  The file
  \<^verbatim>\<open>books.json\<close> is what reading and decoding it gives: an error, or the list of its
  entries.
\<close>

record caches =
  load_inventory_cache :: "book list option"
  build_inventory_lookup_cache :: "catalog_index option"

definition no_caches :: caches where
  "no_caches = \<lparr>load_inventory_cache = None, build_inventory_lookup_cache = None\<rparr>"

definition load_inventory :: "py_error + book list \<Rightarrow> caches \<Rightarrow> (py_error + book list) \<times> caches" where
  "load_inventory file c =
     (case load_inventory_cache c of
        Some inventory \<Rightarrow> (Inr inventory, c)
      | None \<Rightarrow>
          (case file of
             Inl e \<Rightarrow> (Inl e, c)
           | Inr inventory \<Rightarrow> (Inr inventory, c\<lparr>load_inventory_cache := Some inventory\<rparr>)))"

definition build_inventory_lookup ::
  "py_error + book list \<Rightarrow> caches \<Rightarrow> (py_error + catalog_index) \<times> caches" where
  "build_inventory_lookup file c =
     (case build_inventory_lookup_cache c of
        Some d \<Rightarrow> (Inr d, c)
      | None \<Rightarrow>
          (case load_inventory file c of
             (Inl e, c') \<Rightarrow> (Inl e, c')
           | (Inr inventory, c') \<Rightarrow>
               (Inr (index_of inventory),
                c'\<lparr>build_inventory_lookup_cache := Some (index_of inventory)\<rparr>)))"

text \<open>\<^verbatim>\<open>load_inventory.cache_clear(); build_inventory_lookup.cache_clear()\<close>, as the
  "Clear All Caches" button does.\<close>

definition cache_clear :: "caches \<Rightarrow> caches" where
  "cache_clear c = c\<lparr>load_inventory_cache := None, build_inventory_lookup_cache := None\<rparr>"

text \<open>
  The caches as they can be while \<^verbatim>\<open>books.json\<close> decodes to \<open>inventory\<close>: each is
  empty or holds the value computed from it.
\<close>

definition caches_from :: "book list \<Rightarrow> caches \<Rightarrow> bool" where
  "caches_from inventory c =
     ((load_inventory_cache c = None \<or> load_inventory_cache c = Some inventory)
      \<and> (build_inventory_lookup_cache c = None
           \<or> build_inventory_lookup_cache c = Some (index_of inventory)))"

section \<open>Resolver\<close>

text \<open>
  \<^verbatim>\<open>difflib.get_close_matches(word, possibilities, n, cutoff)\<close>.  The similarity
  \<open>ratio x word\<close> stands for \<^verbatim>\<open>SequenceMatcher(a=x, b=word).ratio()\<close> and is a
  parameter.  The library tests \<^verbatim>\<open>real_quick_ratio()\<close> and \<^verbatim>\<open>quick_ratio()\<close>
  first; both are upper bounds of \<^verbatim>\<open>ratio()\<close>, so a possibility is kept exactly
  when its ratio reaches the cutoff.  The kept pairs \<^verbatim>\<open>(score, x)\<close> go through
  \<^verbatim>\<open>heapq.nlargest(n, result)\<close>, which is
  \<^verbatim>\<open>sorted(result, reverse=True)[:n]\<close>: pairs are compared by score, then by string.
\<close>

definition get_close_matches ::
  "(string \<Rightarrow> string \<Rightarrow> real) \<Rightarrow> string \<Rightarrow> string list \<Rightarrow> int \<Rightarrow> real \<Rightarrow> py_error + string list" where
  "get_close_matches ratio word possibilities n cutoff =
     (if \<not> n > 0 then Inl ValueError
      else if \<not> (0 \<le> cutoff \<and> cutoff \<le> 1) then Inl ValueError
      else
        (let result = map (\<lambda>x. (ratio x word, x)) (filter (\<lambda>x. ratio x word \<ge> cutoff) possibilities)
         in Inr (map snd (take (nat n) (rev (sort result))))))"

text \<open>
  The state \<^verbatim>\<open>find_in_inventory\<close> works on: the index bound to the global
  \<^verbatim>\<open>inventory_lookup\<close>, and the entry \<^verbatim>\<open>all_titles\<close> of the session state, absent
  until the first fuzzy lookup stores the titles of the index keys there.
\<close>

record session =
  inventory_lookup :: catalog_index
  all_titles :: "string list option"

definition not_in_inventory :: string where
  "not_in_inventory = ''Not in Inventory''"

text \<open>The loop \<^verbatim>\<open>for (t, a) in inventory_lookup.keys(): if t == best_title: return
  inventory_lookup[(t, a)]\<close>; \<open>None\<close> when the loop ends without returning.\<close>

fun first_with_title ::
  "catalog_index \<Rightarrow> string \<Rightarrow> (string \<times> string) list \<Rightarrow> (py_error + string) option" where
  "first_with_title d best_title [] = None"
| "first_with_title d best_title ((t, a) # ks) =
     (if t = best_title then Some (dict_get d (t, a)) else first_with_title d best_title ks)"

text \<open>
  \<^verbatim>\<open>find_in_inventory(title, author, cutoff)\<close>.  Its \<^verbatim>\<open>lru_cache\<close> stores results
  of calls that returned, keyed by the arguments; the index does not change while
  that cache lives, so a cached answer is the computed one and the cache is left out.
\<close>

definition find_in_inventory ::
  "(string \<Rightarrow> string \<Rightarrow> real) \<Rightarrow> session \<Rightarrow> string \<Rightarrow> string \<Rightarrow> real \<Rightarrow> (py_error + string) \<times> session" where
  "find_in_inventory ratio st title0 author0 cutoff =
     (let title1 = strip (lower title0);
          author1 = strip (lower author0)
      in if (title1, author1) \<in> set (dict_keys (inventory_lookup st))
         then (dict_get (inventory_lookup st) (title1, author1), st)
         else
           (let ts = (case all_titles st of
                        None \<Rightarrow> map fst (dict_keys (inventory_lookup st))
                      | Some ts \<Rightarrow> ts);
                st' = st\<lparr>all_titles := Some ts\<rparr>
            in case get_close_matches ratio title1 ts 1 cutoff of
                 Inl e \<Rightarrow> (Inl e, st')
               | Inr close_titles \<Rightarrow>
                   (case close_titles of
                      [] \<Rightarrow> (Inr not_in_inventory, st')
                    | best_title # rest \<Rightarrow>
                        (case first_with_title (inventory_lookup st') best_title
                                (dict_keys (inventory_lookup st')) of
                           Some r \<Rightarrow> (r, st')
                         | None \<Rightarrow> (Inr not_in_inventory, st')))))"

text \<open>The default \<^verbatim>\<open>cutoff=0.8\<close>.\<close>

definition default_cutoff :: real where
  "default_cutoff = 8 / 10"

text \<open>
  The entry \<^verbatim>\<open>all_titles\<close> is written by \<^verbatim>\<open>find_in_inventory\<close> alone, from the
  index; it is never cleared.  While the index of the session stays the one it was
  computed from, the entry is absent or holds the titles of the index keys.
\<close>

definition titles_coherent :: "session \<Rightarrow> bool" where
  "titles_coherent st =
     (case all_titles st of
        None \<Rightarrow> True
      | Some ts \<Rightarrow> ts = map fst (dict_keys (inventory_lookup st)))"

text \<open>
  Data for evaluating the resolver: the one-book catalog of the specification's
  example, a session over its index, and a stand-in for the similarity that scores
  equal strings 1 (as \<^verbatim>\<open>SequenceMatcher.ratio\<close> does) and all others 0.
\<close>

definition dune_catalog :: "book list" where
  "dune_catalog = [\<lparr>title = ''Dune'', author = ''Frank Herbert'', available = ''yes''\<rparr>]"

definition dune_session :: session where
  "dune_session = \<lparr>inventory_lookup = index_of dune_catalog, all_titles = None\<rparr>"

definition same_string_ratio :: "string \<Rightarrow> string \<Rightarrow> real" where
  "same_string_ratio x word = (if x = word then 1 else 0)"

section \<open>Aggregator: parsing the suggestions\<close>

text \<open>
  The body of the loop \<^verbatim>\<open>for line in suggestions.split("\n")\<close> of
  \<^verbatim>\<open>check_inventory_with_images\<close>, on the list \<^verbatim>\<open>book_tasks\<close> built so far, and the
  loop itself.
\<close>

definition parse_line :: "string \<Rightarrow> (string \<times> string) list \<Rightarrow> (string \<times> string) list" where
  "parse_line line book_tasks =
     (if CHR ''-'' \<in> set line
      then
        (let parts = split_once CHR ''-'' line;
             book_title = strip (strip_chars ''1234567890. '' (fst parts));
             author1 = strip (snd parts)
         in if book_title = [] \<or> author1 = [] then book_tasks
            else book_tasks @ [(book_title, author1)])
      else book_tasks)"

definition parse_books :: "string \<Rightarrow> (string \<times> string) list" where
  "parse_books suggestions =
     foldl (\<lambda>book_tasks line. parse_line line book_tasks) [] (split CHR 0x0A suggestions)"

section \<open>Cover fetcher\<close>

text \<open>
  The value \<^verbatim>\<open>response.json()\<close> gives: \<^verbatim>\<open>None\<close>, a bool, a number, a string, a list
  or a dict with string keys.
\<close>

datatype json =
    JNull
  | JBool bool
  | JNum real
  | JStr string
  | JArr "json list"
  | JObj "(string \<times> json) list"

text \<open>
  The truth value of such a value in \<^verbatim>\<open>if x:\<close> and \<^verbatim>\<open>not x\<close>.
\<close>

definition truthy :: "json \<Rightarrow> bool" where
  "truthy v =
     (case v of
        JNull \<Rightarrow> False
      | JBool b \<Rightarrow> b
      | JNum x \<Rightarrow> x \<noteq> 0
      | JStr s \<Rightarrow> s \<noteq> []
      | JArr xs \<Rightarrow> xs \<noteq> []
      | JObj d \<Rightarrow> d \<noteq> [])"

text \<open>
  \<^verbatim>\<open>k in v\<close> for a string \<open>k\<close>: a key of a dict, an element of a list, a substring
  of a string; the other values are not containers and the test raises
  \<^verbatim>\<open>TypeError\<close>.
\<close>

definition is_substring :: "string \<Rightarrow> string \<Rightarrow> bool" where
  "is_substring k s = list_ex (\<lambda>i. take (length k) (drop i s) = k) [0..<Suc (length s)]"

definition py_in :: "string \<Rightarrow> json \<Rightarrow> py_error + bool" where
  "py_in k v =
     (case v of
        JObj d \<Rightarrow> Inr (k \<in> set (dict_keys d))
      | JArr xs \<Rightarrow> Inr (JStr k \<in> set xs)
      | JStr s \<Rightarrow> Inr (is_substring k s)
      | _ \<Rightarrow> Inl TypeError)"

text \<open>
  \<^verbatim>\<open>v[k]\<close> for a string \<open>k\<close> (only a dict takes one) and \<^verbatim>\<open>v[0]\<close> (a dict decoded
  from JSON has no key \<^verbatim>\<open>0\<close>).
\<close>

definition py_getitem :: "json \<Rightarrow> string \<Rightarrow> py_error + json" where
  "py_getitem v k =
     (case v of
        JObj d \<Rightarrow> dict_get d k
      | _ \<Rightarrow> Inl TypeError)"

definition py_getitem0 :: "json \<Rightarrow> py_error + json" where
  "py_getitem0 v =
     (case v of
        JObj d \<Rightarrow> Inl KeyError
      | JArr xs \<Rightarrow> (case xs of [] \<Rightarrow> Inl IndexError | x # rest \<Rightarrow> Inr x)
      | JStr s \<Rightarrow> (case s of [] \<Rightarrow> Inl IndexError | c # rest \<Rightarrow> Inr (JStr [c]))
      | _ \<Rightarrow> Inl TypeError)"

text \<open>
  \<^verbatim>\<open>v.get(k, dflt)\<close> and \<^verbatim>\<open>v.replace(old, new)\<close>: methods of dicts and of strings
  only; on another value the attribute lookup raises \<^verbatim>\<open>AttributeError\<close>.
\<close>

definition py_get :: "json \<Rightarrow> string \<Rightarrow> json \<Rightarrow> py_error + json" where
  "py_get v k dflt =
     (case v of
        JObj d \<Rightarrow> Inr (case map_of d k of None \<Rightarrow> dflt | Some x \<Rightarrow> x)
      | _ \<Rightarrow> Inl AttributeError)"

definition py_replace :: "json \<Rightarrow> string \<Rightarrow> string \<Rightarrow> py_error + json" where
  "py_replace v old new =
     (case v of
        JStr s \<Rightarrow> Inr (JStr (replace old new s))
      | _ \<Rightarrow> Inl AttributeError)"

text \<open>
  Sequencing of steps that may raise: the first exception ends the computation.
\<close>

definition and_then :: "py_error + 'a \<Rightarrow> ('a \<Rightarrow> py_error + 'b) \<Rightarrow> py_error + 'b" where
  "and_then r f = (case r of Inl e \<Rightarrow> Inl e | Inr x \<Rightarrow> f x)"

text \<open>
  \<^verbatim>\<open>get_book_cover(title, author)\<close>.  The network is the parameter \<open>http\<close>: for a
  URL, what \<^verbatim>\<open>requests.get(url, timeout=5)\<close>, \<^verbatim>\<open>raise_for_status()\<close> and
  \<^verbatim>\<open>response.json()\<close> end in, an exception or the decoded body.  Connection
  errors, timeouts and error statuses are \<^verbatim>\<open>RequestException\<close>s, and so is a body
  that is not JSON in requests 2.27 and later.  \<open>get_book_cover_try\<close> is the body of
  the \<^verbatim>\<open>try\<close>, \<open>get_book_cover\<close> adds the \<^verbatim>\<open>except (requests.RequestException,
  KeyError, IndexError)\<close> clause.  The \<^verbatim>\<open>lru_cache\<close> returns what an earlier call with
  the same arguments returned and is left out.
\<close>

definition cover_url :: "string \<Rightarrow> string \<Rightarrow> string" where
  "cover_url title0 author0 =
     ''https://www.googleapis.com/books/v1/volumes?q='' @ (title0 @ '' '' @ author0)
       @ ''&maxResults=1&zoom=2''"

definition get_book_cover_try :: "(string \<Rightarrow> py_error + json) \<Rightarrow> string \<Rightarrow> string \<Rightarrow> py_error + json" where
  "get_book_cover_try http title0 author0 =
     and_then (http (cover_url title0 author0)) (\<lambda>data.
     and_then (py_in ''items'' data) (\<lambda>has_items.
       if \<not> has_items then Inr JNull
       else
         and_then (py_getitem data ''items'') (\<lambda>items.
           if \<not> truthy items then Inr JNull
           else
             and_then (py_getitem data ''items'') (\<lambda>items1.
             and_then (py_getitem0 items1) (\<lambda>item.
             and_then (py_getitem item ''volumeInfo'') (\<lambda>info.
             and_then (py_get info ''imageLinks'' (JObj [])) (\<lambda>links.
             and_then (py_get links ''thumbnail'' JNull) (\<lambda>img.
               if truthy img
               then and_then (py_replace img ''http://'' ''https://'') (\<lambda>img1.
                      py_replace img1 ''&edge=curl'' '''')
               else Inr img))))))))"

definition get_book_cover :: "(string \<Rightarrow> py_error + json) \<Rightarrow> string \<Rightarrow> string \<Rightarrow> py_error + json" where
  "get_book_cover http title0 author0 =
     (case get_book_cover_try http title0 author0 of
        Inl e \<Rightarrow> (if e = RequestException \<or> e = KeyError \<or> e = IndexError then Inr JNull else Inl e)
      | Inr img \<Rightarrow> Inr img)"

section \<open>Aggregator: dispatching the books\<close>

text \<open>
  The dict \<^verbatim>\<open>fetch_single_book_data\<close> returns, with the keys \<^verbatim>\<open>title\<close>,
  \<^verbatim>\<open>author\<close>, \<^verbatim>\<open>availability\<close> and \<^verbatim>\<open>cover\<close>.
\<close>

record book_result =
  result_title :: string
  result_author :: string
  availability :: string
  cover :: json

text \<open>
  \<^verbatim>\<open>fetch_single_book_data(book_title, author)\<close>: an exception of either call is the
  exception of the task.
\<close>

definition fetch_single_book_data ::
  "(string \<Rightarrow> string \<Rightarrow> real) \<Rightarrow> (string \<Rightarrow> py_error + json) \<Rightarrow> session \<Rightarrow> string \<Rightarrow> string
     \<Rightarrow> (py_error + book_result) \<times> session" where
  "fetch_single_book_data ratio http st book_title author0 =
     (case find_in_inventory ratio st book_title author0 default_cutoff of
        (Inl e, st') \<Rightarrow> (Inl e, st')
      | (Inr found, st') \<Rightarrow>
          (case get_book_cover http book_title author0 of
             Inl e \<Rightarrow> (Inl e, st')
           | Inr img \<Rightarrow>
               (Inr \<lparr>result_title = book_title, result_author = author0,
                      availability = found, cover = img\<rparr>, st')))"

text \<open>
  The tasks handed to the \<^verbatim>\<open>ThreadPoolExecutor\<close>, each with the outcome its future
  holds.  The workers share one piece of state, the entry \<^verbatim>\<open>all_titles\<close>, and every
  write to it stores the same list; the tasks are run here in the order of
  submission.
\<close>

fun submit_all ::
  "(string \<Rightarrow> string \<Rightarrow> real) \<Rightarrow> (string \<Rightarrow> py_error + json) \<Rightarrow> session \<Rightarrow> (string \<times> string) list
     \<Rightarrow> (py_error + book_result) list \<times> session" where
  "submit_all ratio http st [] = ([], st)"
| "submit_all ratio http st ((t, a) # book_tasks) =
     (case fetch_single_book_data ratio http st t a of
        (outcome, st') \<Rightarrow>
          (case submit_all ratio http st' book_tasks of
             (outcomes, st'') \<Rightarrow> (outcome # outcomes, st'')))"

text \<open>
  The body of the loop over \<^verbatim>\<open>as_completed\<close>: the result of the future, or the
  record of the \<^verbatim>\<open>except Exception\<close> clause.
\<close>

definition collect :: "string \<times> string \<Rightarrow> py_error + book_result \<Rightarrow> book_result" where
  "collect task outcome =
     (case outcome of
        Inr result \<Rightarrow> result
      | Inl e \<Rightarrow> \<lparr>result_title = fst task, result_author = snd task,
                   availability = ''Error'', cover = JNull\<rparr>)"

text \<open>
  \<^verbatim>\<open>check_inventory_with_images(suggestions)\<close>.  \<open>completion\<close> is the order in which
  \<^verbatim>\<open>as_completed\<close> yields the futures, as indices into \<^verbatim>\<open>book_tasks\<close>: each future
  once, so a permutation of the indices.  The \<^verbatim>\<open>st.cache_data\<close> wrapper is left out.
\<close>

definition check_inventory_with_images ::
  "(string \<Rightarrow> string \<Rightarrow> real) \<Rightarrow> (string \<Rightarrow> py_error + json) \<Rightarrow> session \<Rightarrow> nat list \<Rightarrow> string
     \<Rightarrow> book_result list \<times> session" where
  "check_inventory_with_images ratio http st completion suggestions =
     (let book_tasks = parse_books suggestions
      in case submit_all ratio http st book_tasks of
           (outcomes, st') \<Rightarrow>
             (map (\<lambda>i. collect (book_tasks ! i) (outcomes ! i)) completion, st'))"

text \<open>
  The titles a fuzzy lookup matches against in a session.
\<close>

definition titles_used :: "session \<Rightarrow> string list" where
  "titles_used st =
     (case all_titles st of
        None \<Rightarrow> map fst (dict_keys (inventory_lookup st))
      | Some ts \<Rightarrow> ts)"

text \<open>
  Data for evaluating the cover fetcher and the aggregator: a body whose
  \<^verbatim>\<open>imageLinks\<close> is \<^verbatim>\<open>null\<close>, a body with a thumbnail, a server that answers every
  URL with one body, a server that answers the query for one book with the first body
  and all others with the second, and a text of two suggestions.
\<close>

definition null_image_links :: json where
  "null_image_links = JObj [(''items'', JArr [JObj [(''volumeInfo'', JObj [(''imageLinks'', JNull)])]])]"

definition dune_volume :: json where
  "dune_volume = JObj [(''items'', JArr [JObj [(''volumeInfo'',
      JObj [(''imageLinks'', JObj [(''thumbnail'', JStr ''http://books.google.com/c?id=B1&zoom=1&edge=curl&source=gbs_api'')])])]])]"

definition always :: "json \<Rightarrow> string \<Rightarrow> py_error + json" where
  "always body url = Inr body"

definition emma_fails :: "string \<Rightarrow> py_error + json" where
  "emma_fails url =
     (if url = cover_url ''Emma'' ''Jane Austen'' then Inr null_image_links else Inr dune_volume)"

definition two_books :: string where
  "two_books = ''1. Dune - Frank Herbert'' @ CHR 0x0A # ''2. Emma - Jane Austen''"

section \<open>Properties of the dictionary operations\<close>

lemma dict_get_key:
  "k \<in> set (dict_keys d) \<Longrightarrow> \<exists>v. dict_get d k = Inr v \<and> (k, v) \<in> set d"
  unfolding dict_get_def dict_keys_def
  by (cases "map_of d k") (auto simp: map_of_eq_None_iff dest: map_of_SomeD)

text \<open>
  The key loop of \<^verbatim>\<open>find_in_inventory\<close> reads the value of the first entry whose
  title is the wanted one: an earlier entry with the same key would carry that title
  too.  The statement is generalised over the entries \<open>pre\<close> already passed.
\<close>

lemma first_with_title_suffix:
  "\<forall>k \<in> set (dict_keys pre). fst k \<noteq> best \<Longrightarrow>
   first_with_title (pre @ post) best (dict_keys post) =
     (case find (\<lambda>e. fst (fst e) = best) post of
        None \<Rightarrow> None
      | Some e \<Rightarrow> Some (Inr (snd e)))"
proof (induction post arbitrary: pre)
  case Nil
  then show ?case by (simp add: dict_keys_def)
next
  case (Cons e post)
  obtain t a v where e: "e = ((t, a), v)" by (metis surj_pair)
  show ?case
  proof (cases "t = best")
    case True
    have "map_of pre (t, a) = None"
      using Cons.prems True by (force simp: map_of_eq_None_iff dict_keys_def)
    then have "dict_get (pre @ e # post) (t, a) = Inr v"
      by (simp add: dict_get_def e map_add_def)
    then show ?thesis using True by (simp add: e dict_keys_def)
  next
    case False
    have "\<forall>k \<in> set (dict_keys (pre @ [e])). fst k \<noteq> best"
      using Cons.prems False by (auto simp: dict_keys_def e)
    from Cons.IH[OF this] show ?thesis using False by (simp add: e dict_keys_def)
  qed
qed

lemma first_with_title_find:
  "first_with_title d best (dict_keys d) =
     (case find (\<lambda>e. fst (fst e) = best) d of
        None \<Rightarrow> None
      | Some e \<Rightarrow> Some (Inr (snd e)))"
  using first_with_title_suffix[of "[]" best d] by (simp add: dict_keys_def)

section \<open>Properties of \<^verbatim>\<open>get_close_matches\<close>\<close>

lemma sorted_last_greatest:
  fixes ys :: "('a::linorder) list"
  shows "sorted ys \<Longrightarrow> y \<in> set ys \<Longrightarrow> y \<le> last ys"
  by (induction ys) auto

lemma nlargest1:
  fixes xs :: "('a::linorder) list"
  assumes "xs \<noteq> []"
  shows "\<exists>m. take 1 (rev (sort xs)) = [m] \<and> m \<in> set xs \<and> (\<forall>y \<in> set xs. y \<le> m)"
proof -
  have ne: "sort xs \<noteq> []" using assms by (metis length_sort length_0_conv)
  then have "take 1 (rev (sort xs)) = [last (sort xs)]"
    by (cases "rev (sort xs)") (auto simp: last_rev[symmetric] simp del: last_rev)
  moreover have "last (sort xs) \<in> set xs" using ne last_in_set by fastforce
  moreover have "\<forall>y \<in> set xs. y \<le> last (sort xs)"
    using sorted_last_greatest[of "sort xs"] by simp
  ultimately show ?thesis by blast
qed

text \<open>
  With \<^verbatim>\<open>n=1\<close> and a cutoff in range the result is empty when no possibility
  reaches the cutoff, and otherwise the one possibility whose pair of score and
  string is greatest among those that reach it.
\<close>

lemma get_close_matches_one:
  assumes "0 \<le> cutoff" "cutoff \<le> 1"
  shows "(get_close_matches ratio word ts 1 cutoff = Inr [] \<and> (\<forall>x \<in> set ts. ratio x word < cutoff))
       \<or> (\<exists>best. get_close_matches ratio word ts 1 cutoff = Inr [best] \<and> best \<in> set ts
             \<and> cutoff \<le> ratio best word
             \<and> (\<forall>x \<in> set ts. cutoff \<le> ratio x word \<longrightarrow> (ratio x word, x) \<le> (ratio best word, best)))"
proof (cases "filter (\<lambda>x. ratio x word \<ge> cutoff) ts = []")
  case True
  then have "\<forall>x \<in> set ts. ratio x word < cutoff"
    by (auto simp: filter_empty_conv not_le)
  then show ?thesis using assms True by (simp add: get_close_matches_def)
next
  case False
  define res where "res = map (\<lambda>x. (ratio x word, x)) (filter (\<lambda>x. ratio x word \<ge> cutoff) ts)"
  have "res \<noteq> []" using False by (simp add: res_def)
  from nlargest1[OF this] obtain m where m: "take 1 (rev (sort res)) = [m]" "m \<in> set res"
    "\<forall>y \<in> set res. y \<le> m" by blast
  from m(2) obtain b where b: "m = (ratio b word, b)" "b \<in> set ts" "cutoff \<le> ratio b word"
    by (auto simp: res_def)
  have "get_close_matches ratio word ts 1 cutoff = Inr [b]"
    using assms m(1) b(1) by (simp add: get_close_matches_def res_def[symmetric])
  moreover have "\<forall>x \<in> set ts. cutoff \<le> ratio x word \<longrightarrow> (ratio x word, x) \<le> (ratio b word, b)"
    using m(3) b(1) by (auto simp: res_def)
  ultimately show ?thesis using b by blast
qed

lemma get_close_matches_bad_cutoff:
  "\<not> (0 \<le> cutoff \<and> cutoff \<le> 1) \<Longrightarrow> get_close_matches ratio word ts 1 cutoff = Inl ValueError"
  by (simp add: get_close_matches_def)

section \<open>Properties of the resolver\<close>

lemma key_in_dict_keys:
  "map_of d k = Some v \<Longrightarrow> k \<in> set (dict_keys d)"
  by (metis dict_keys_def domI dom_map_of_conv_image_fst set_map)

lemma find_in_inventory_fuzzy:
  assumes "(strip (lower t), strip (lower a)) \<notin> set (dict_keys (inventory_lookup st))"
  shows "fst (find_in_inventory ratio st t a cutoff) =
     (case get_close_matches ratio (strip (lower t))
             (case all_titles st of None \<Rightarrow> map fst (dict_keys (inventory_lookup st)) | Some ts \<Rightarrow> ts) 1 cutoff of
        Inl e \<Rightarrow> Inl e
      | Inr [] \<Rightarrow> Inr not_in_inventory
      | Inr (best # rest) \<Rightarrow>
          (case find (\<lambda>e. fst (fst e) = best) (inventory_lookup st) of
             None \<Rightarrow> Inr not_in_inventory
           | Some e \<Rightarrow> Inr (snd e)))"
  using assms
  by (simp add: find_in_inventory_def Let_def first_with_title_find
           split: sum.splits list.splits option.splits)

lemma find_title_None:
  "find (\<lambda>e. fst (fst e) = best) d = None \<longleftrightarrow> best \<notin> set (map fst (dict_keys d))"
  by (induction d) (auto simp: dict_keys_def)

lemma find_title_Some:
  "find (\<lambda>e. fst (fst e) = best) d = Some e \<Longrightarrow> e \<in> set d \<and> fst (fst e) = best"
  by (auto simp: find_Some_iff)

lemma find_in_inventory_exact:
  assumes "map_of (inventory_lookup st) (strip (lower t), strip (lower a)) = Some v"
  shows "find_in_inventory ratio st t a cutoff = (Inr v, st)"
  using assms key_in_dict_keys[OF assms] by (simp add: find_in_inventory_def dict_get_def)

text \<open>
  Claim C1.  When the normalized pair (lowercase, whitespace-trimmed) is a key of the
  index, \<^verbatim>\<open>find_in_inventory\<close> returns the value the index holds for it, for every
  similarity and every cutoff; the session is returned as it was, so the fuzzy step,
  which stores \<^verbatim>\<open>all_titles\<close>, was not entered.
\<close>

theorem exact_match_returns_entry:
  assumes "map_of (inventory_lookup st) (strip (lower t), strip (lower a)) = Some v"
  shows "find_in_inventory ratio st t a cutoff = (Inr v, st)"
  using assms by (rule find_in_inventory_exact)

text \<open>
  Claim C3.  When the normalized pair is not a key of the index and no title of the
  index reaches the cutoff (a cutoff in \<open>[0, 1]\<close>) against the normalized query title,
  the result is the sentinel \<^verbatim>\<open>"Not in Inventory"\<close>.  This holds for every content of
  \<^verbatim>\<open>all_titles\<close>: a stored title that is no longer in the index selects no entry.
\<close>

theorem no_close_title_not_in_inventory:
  assumes nokey: "(strip (lower t), strip (lower a)) \<notin> set (dict_keys (inventory_lookup st))"
    and far: "\<forall>x \<in> set (map fst (dict_keys (inventory_lookup st))). ratio x (strip (lower t)) < cutoff"
    and cut: "0 \<le> cutoff" "cutoff \<le> 1"
  shows "fst (find_in_inventory ratio st t a cutoff) = Inr not_in_inventory"
proof -
  let ?ts = "case all_titles st of None \<Rightarrow> map fst (dict_keys (inventory_lookup st)) | Some ts \<Rightarrow> ts"
  from get_close_matches_one[OF cut, of ratio "strip (lower t)" ?ts] show ?thesis
  proof (elim disjE exE conjE)
    assume "get_close_matches ratio (strip (lower t)) ?ts 1 cutoff = Inr []"
    then show ?thesis by (simp add: find_in_inventory_fuzzy[OF nokey])
  next
    fix best
    assume g: "get_close_matches ratio (strip (lower t)) ?ts 1 cutoff = Inr [best]"
      and r: "cutoff \<le> ratio best (strip (lower t))"
    have "best \<notin> set (map fst (dict_keys (inventory_lookup st)))"
    proof
      assume "best \<in> set (map fst (dict_keys (inventory_lookup st)))"
      with far have "ratio best (strip (lower t)) < cutoff" by (rule bspec)
      with r show False by simp
    qed
    then have "find (\<lambda>e. fst (fst e) = best) (inventory_lookup st) = None"
      by (simp only: find_title_None[symmetric])
    then show ?thesis using g by (simp add: find_in_inventory_fuzzy[OF nokey])
  qed
qed

lemma find_in_inventory_value:
  assumes cut: "0 \<le> cutoff" "cutoff \<le> 1"
  shows "\<exists>v. fst (find_in_inventory ratio st t a cutoff) = Inr v
           \<and> (v = not_in_inventory \<or> v \<in> snd ` set (inventory_lookup st))"
proof (cases "(strip (lower t), strip (lower a)) \<in> set (dict_keys (inventory_lookup st))")
  case True
  from dict_get_key[OF True] obtain v
    where v: "dict_get (inventory_lookup st) (strip (lower t), strip (lower a)) = Inr v"
      "((strip (lower t), strip (lower a)), v) \<in> set (inventory_lookup st)"
    by blast
  have "fst (find_in_inventory ratio st t a cutoff) = Inr v"
    using True v(1) by (simp add: find_in_inventory_def)
  moreover have "v \<in> snd ` set (inventory_lookup st)"
    using v(2) by (metis image_eqI snd_conv)
  ultimately show ?thesis by blast
next
  case False
  let ?ts = "case all_titles st of None \<Rightarrow> map fst (dict_keys (inventory_lookup st)) | Some ts \<Rightarrow> ts"
  from get_close_matches_one[OF cut, of ratio "strip (lower t)" ?ts] show ?thesis
  proof (elim disjE exE conjE)
    assume "get_close_matches ratio (strip (lower t)) ?ts 1 cutoff = Inr []"
    then show ?thesis by (simp add: find_in_inventory_fuzzy[OF False])
  next
    fix best
    assume g: "get_close_matches ratio (strip (lower t)) ?ts 1 cutoff = Inr [best]"
    show ?thesis
    proof (cases "find (\<lambda>e. fst (fst e) = best) (inventory_lookup st)")
      case None
      then show ?thesis using g by (simp add: find_in_inventory_fuzzy[OF False])
    next
      case (Some e)
      then have "e \<in> set (inventory_lookup st)" by (rule find_title_Some[THEN conjunct1])
      then show ?thesis using g Some by (simp add: find_in_inventory_fuzzy[OF False])
    qed
  qed
qed

text \<open>
  Claim C10.  For every title, author and cutoff in \<open>[0, 1]\<close>, \<^verbatim>\<open>find_in_inventory\<close>
  returns a value, and that value is the sentinel or the availability string of an
  entry of the index, unchanged.
\<close>

theorem result_is_sentinel_or_catalog_value:
  assumes "0 \<le> cutoff" "cutoff \<le> 1"
  shows "\<exists>v. fst (find_in_inventory ratio st t a cutoff) = Inr v
           \<and> (v = not_in_inventory \<or> v \<in> snd ` set (inventory_lookup st))"
  using assms by (rule find_in_inventory_value)

lemma pair_le_fst:
  fixes r r' :: real and x x' :: string
  assumes "(r, x) \<le> (r', x')"
  shows "r \<le> r' \<and> (r = r' \<longrightarrow> x \<le> x')"
  using assms by (auto simp: less_eq_prod_def)

text \<open>
  Claim C2.  When the normalized pair is not a key of the index and some title of the
  index reaches the cutoff, there is a best title: it is in the index, it reaches the
  cutoff, no title of the index scores higher, and among equal scores it is the
  greatest string.  The result is the availability of the first index entry carrying
  that title, and it is the same for every author whose pair is not a key: the author
  plays no part once the exact lookup has missed.
\<close>

theorem fuzzy_match_ignores_author:
  assumes nokey: "(strip (lower t), strip (lower a)) \<notin> set (dict_keys (inventory_lookup st))"
    and coh: "titles_coherent st"
    and cut: "0 \<le> cutoff" "cutoff \<le> 1"
    and close: "\<exists>x \<in> set (map fst (dict_keys (inventory_lookup st))). cutoff \<le> ratio x (strip (lower t))"
  shows "\<exists>best e.
           best \<in> set (map fst (dict_keys (inventory_lookup st)))
         \<and> cutoff \<le> ratio best (strip (lower t))
         \<and> (\<forall>x \<in> set (map fst (dict_keys (inventory_lookup st))).
               ratio x (strip (lower t)) \<le> ratio best (strip (lower t))
             \<and> (ratio x (strip (lower t)) = ratio best (strip (lower t)) \<longrightarrow> x \<le> best))
         \<and> find (\<lambda>e. fst (fst e) = best) (inventory_lookup st) = Some e
         \<and> fst (find_in_inventory ratio st t a cutoff) = Inr (snd e)
         \<and> (\<forall>a'. (strip (lower t), strip (lower a')) \<notin> set (dict_keys (inventory_lookup st))
                \<longrightarrow> fst (find_in_inventory ratio st t a' cutoff) = Inr (snd e))"
proof -
  let ?w = "strip (lower t)"
  let ?titles = "map fst (dict_keys (inventory_lookup st))"
  have ts: "(case all_titles st of None \<Rightarrow> ?titles | Some ts \<Rightarrow> ts) = ?titles"
    using coh by (simp add: titles_coherent_def split: option.splits)
  from close obtain x0 where x0: "x0 \<in> set ?titles" "cutoff \<le> ratio x0 ?w" by (rule bexE)
  from get_close_matches_one[OF cut, of ratio ?w ?titles] show ?thesis
  proof (elim disjE exE conjE)
    assume "\<forall>x \<in> set ?titles. ratio x ?w < cutoff"
    then have "ratio x0 ?w < cutoff" using x0(1) by (rule bspec)
    with x0(2) show ?thesis by simp
  next
    fix best
    assume g: "get_close_matches ratio ?w ?titles 1 cutoff = Inr [best]"
      and mem: "best \<in> set ?titles"
      and r: "cutoff \<le> ratio best ?w"
      and mx: "\<forall>x \<in> set ?titles. cutoff \<le> ratio x ?w \<longrightarrow> (ratio x ?w, x) \<le> (ratio best ?w, best)"
    have top: "\<forall>x \<in> set ?titles. ratio x ?w \<le> ratio best ?w \<and> (ratio x ?w = ratio best ?w \<longrightarrow> x \<le> best)"
    proof
      fix x assume x: "x \<in> set ?titles"
      show "ratio x ?w \<le> ratio best ?w \<and> (ratio x ?w = ratio best ?w \<longrightarrow> x \<le> best)"
      proof (cases "cutoff \<le> ratio x ?w")
        case True
        from mx x have "cutoff \<le> ratio x ?w \<longrightarrow> (ratio x ?w, x) \<le> (ratio best ?w, best)"
          by (rule bspec)
        with True have "(ratio x ?w, x) \<le> (ratio best ?w, best)" by simp
        then show ?thesis by (rule pair_le_fst)
      next
        case False
        then show ?thesis using r by simp
      qed
    qed
    have "find (\<lambda>e. fst (fst e) = best) (inventory_lookup st) \<noteq> None"
      using mem by (simp only: find_title_None) simp
    then obtain e where e: "find (\<lambda>e. fst (fst e) = best) (inventory_lookup st) = Some e"
      by (cases "find (\<lambda>e. fst (fst e) = best) (inventory_lookup st)") simp_all
    have res: "fst (find_in_inventory ratio st t a' cutoff) = Inr (snd e)"
      if "(?w, strip (lower a')) \<notin> set (dict_keys (inventory_lookup st))" for a'
      using g e by (simp add: find_in_inventory_fuzzy[OF that] ts)
    have all: "\<forall>a'. (?w, strip (lower a')) \<notin> set (dict_keys (inventory_lookup st))
                \<longrightarrow> fst (find_in_inventory ratio st t a' cutoff) = Inr (snd e)"
      using res by simp
    show ?thesis
      apply (rule exI[of _ best])
      apply (rule exI[of _ e])
      apply (intro conjI)
           apply (rule mem)
          apply (rule r)
         apply (rule top)
        apply (rule e)
       apply (rule res[OF nokey])
      apply (rule all)
      done
  qed
qed

lemma key_has_value:
  "k \<in> set (dict_keys d) \<Longrightarrow> \<exists>v. map_of d k = Some v"
  by (cases "map_of d k") (auto simp: map_of_eq_None_iff dict_keys_def)

text \<open>
  Claim C7, as amended.  With a cutoff in \<open>[0, 1]\<close> \<^verbatim>\<open>find_in_inventory\<close> always
  returns a value.  With a cutoff outside \<open>[0, 1]\<close> it raises \<^verbatim>\<open>ValueError\<close> (from
  \<^verbatim>\<open>get_close_matches\<close>) exactly when the normalized pair is not a key of the index;
  when it is a key, the exact lookup returns the entry's availability and the cutoff is
  never inspected.
\<close>

theorem fails_only_on_fuzzy_path_with_bad_cutoff:
  "(0 \<le> cutoff \<and> cutoff \<le> 1 \<longrightarrow> (\<exists>v. fst (find_in_inventory ratio st t a cutoff) = Inr v))
 \<and> (\<not> (0 \<le> cutoff \<and> cutoff \<le> 1) \<longrightarrow>
      (if (strip (lower t), strip (lower a)) \<in> set (dict_keys (inventory_lookup st))
       then \<exists>v. find_in_inventory ratio st t a cutoff = (Inr v, st)
                \<and> map_of (inventory_lookup st) (strip (lower t), strip (lower a)) = Some v
       else fst (find_in_inventory ratio st t a cutoff) = Inl ValueError))"
proof (intro conjI impI)
  assume c: "0 \<le> cutoff \<and> cutoff \<le> 1"
  from find_in_inventory_value[of cutoff ratio st t a] c
  show "\<exists>v. fst (find_in_inventory ratio st t a cutoff) = Inr v"
    by blast
next
  assume bad: "\<not> (0 \<le> cutoff \<and> cutoff \<le> 1)"
  show "if (strip (lower t), strip (lower a)) \<in> set (dict_keys (inventory_lookup st))
       then \<exists>v. find_in_inventory ratio st t a cutoff = (Inr v, st)
                \<and> map_of (inventory_lookup st) (strip (lower t), strip (lower a)) = Some v
       else fst (find_in_inventory ratio st t a cutoff) = Inl ValueError"
  proof (cases "(strip (lower t), strip (lower a)) \<in> set (dict_keys (inventory_lookup st))")
    case True
    from key_has_value[OF True] obtain v
      where v: "map_of (inventory_lookup st) (strip (lower t), strip (lower a)) = Some v"
      by blast
    have "find_in_inventory ratio st t a cutoff = (Inr v, st)"
      by (rule find_in_inventory_exact[OF v])
    with v True show ?thesis by simp
  next
    case False
    have "fst (find_in_inventory ratio st t a cutoff) = Inl ValueError"
      by (simp add: find_in_inventory_fuzzy[OF False] get_close_matches_bad_cutoff[OF bad])
    with False show ?thesis by simp
  qed
qed

text \<open>
  A session that has not done a fuzzy lookup is coherent, and every lookup leaves a
  coherent session coherent.
\<close>

lemma fresh_session_coherent:
  "titles_coherent \<lparr>inventory_lookup = d, all_titles = None\<rparr>"
  by (simp add: titles_coherent_def)

lemma find_in_inventory_keeps_coherent:
  "titles_coherent st \<Longrightarrow> titles_coherent (snd (find_in_inventory ratio st t a c))"
  by (simp add: find_in_inventory_def Let_def titles_coherent_def
           split: sum.splits list.splits option.splits)

section \<open>The resolver on the example catalog\<close>

lemma norm_dune: "strip (lower ''Dune'') = ''dune''" by code_simp
lemma norm_dune_sp: "strip (lower ''Dune '') = ''dune''" by code_simp
lemma norm_herbert: "strip (lower ''Frank Herbert'') = ''frank herbert''" by code_simp
lemma norm_unknown: "strip (lower ''Unknown Author'') = ''unknown author''" by code_simp
lemma norm_foundation: "strip (lower ''Foundation'') = ''foundation''" by code_simp
lemma norm_asimov: "strip (lower ''Isaac Asimov'') = ''isaac asimov''" by code_simp

lemma dune_index: "index_of dune_catalog = [((''dune'', ''frank herbert''), ''yes'')]"
  by (simp add: index_of_def dune_catalog_def index_entry_def norm_dune norm_herbert)

lemma dune_session_index: "inventory_lookup dune_session = [((''dune'', ''frank herbert''), ''yes'')]"
  by (simp add: dune_session_def dune_index)

theorem exact_match_returns_entry_witness:
  "map_of (inventory_lookup dune_session) (strip (lower ''Dune''), strip (lower ''Frank Herbert'')) = Some ''yes''
   \<and> find_in_inventory same_string_ratio dune_session ''Dune'' ''Frank Herbert'' default_cutoff
       = (Inr ''yes'', dune_session)"
proof -
  have h: "map_of (inventory_lookup dune_session) (strip (lower ''Dune''), strip (lower ''Frank Herbert'')) = Some ''yes''"
    by (simp add: dune_session_index norm_dune norm_herbert)
  from exact_match_returns_entry[where ratio = same_string_ratio and cutoff = default_cutoff, OF h] h show ?thesis by simp
qed

theorem no_close_title_not_in_inventory_witness:
  "(strip (lower ''Foundation''), strip (lower ''Isaac Asimov'')) \<notin> set (dict_keys (inventory_lookup dune_session))
   \<and> map fst (dict_keys (inventory_lookup dune_session)) = [''dune'']
   \<and> same_string_ratio ''dune'' (strip (lower ''Foundation'')) < default_cutoff
   \<and> 0 \<le> default_cutoff \<and> default_cutoff \<le> 1
   \<and> fst (find_in_inventory same_string_ratio dune_session ''Foundation'' ''Isaac Asimov'' default_cutoff)
       = Inr ''Not in Inventory''"
proof -
  have h1: "(strip (lower ''Foundation''), strip (lower ''Isaac Asimov'')) \<notin> set (dict_keys (inventory_lookup dune_session))"
    by (simp add: dune_session_index dict_keys_def norm_foundation norm_asimov)
  have h2: "\<forall>x \<in> set (map fst (dict_keys (inventory_lookup dune_session))).
          same_string_ratio x (strip (lower ''Foundation'')) < default_cutoff"
    by (simp add: dune_session_index dict_keys_def norm_foundation same_string_ratio_def default_cutoff_def)
  have h3: "0 \<le> default_cutoff" and h4: "default_cutoff \<le> 1" by (simp_all add: default_cutoff_def)
  from no_close_title_not_in_inventory[where ratio = same_string_ratio and st = dune_session
      and t = "''Foundation''" and a = "''Isaac Asimov''" and cutoff = default_cutoff, OF h1 h2 h3 h4]
    h1 h3 h4 show ?thesis
    by (simp add: not_in_inventory_def dune_session_index dict_keys_def norm_foundation
          same_string_ratio_def default_cutoff_def)
qed

theorem result_is_sentinel_or_catalog_value_witness:
  "0 \<le> default_cutoff \<and> default_cutoff \<le> 1
   \<and> (\<exists>v. fst (find_in_inventory same_string_ratio dune_session ''Dune '' ''Unknown Author'' default_cutoff) = Inr v
          \<and> (v = not_in_inventory \<or> v \<in> snd ` set (inventory_lookup dune_session)))"
proof -
  have h3: "0 \<le> default_cutoff" and h4: "default_cutoff \<le> 1" by (simp_all add: default_cutoff_def)
  from result_is_sentinel_or_catalog_value[where ratio = same_string_ratio and st = dune_session
      and t = "''Dune ''" and a = "''Unknown Author''", OF h3 h4] h3 h4
  show ?thesis by blast
qed

theorem fuzzy_match_ignores_author_witness:
  "(strip (lower ''Dune ''), strip (lower ''Unknown Author'')) \<notin> set (dict_keys (inventory_lookup dune_session))
   \<and> titles_coherent dune_session
   \<and> 0 \<le> default_cutoff \<and> default_cutoff \<le> 1
   \<and> (\<exists>x \<in> set (map fst (dict_keys (inventory_lookup dune_session))).
          default_cutoff \<le> same_string_ratio x (strip (lower ''Dune '')))
   \<and> fst (find_in_inventory same_string_ratio dune_session ''Dune '' ''Unknown Author'' default_cutoff) = Inr ''yes''"
proof -
  have h1: "(strip (lower ''Dune ''), strip (lower ''Unknown Author'')) \<notin> set (dict_keys (inventory_lookup dune_session))"
    by (simp add: dune_session_index dict_keys_def norm_dune_sp norm_unknown)
  have h2: "titles_coherent dune_session" by (simp add: titles_coherent_def dune_session_def)
  have h3: "0 \<le> default_cutoff" and h4: "default_cutoff \<le> 1" by (simp_all add: default_cutoff_def)
  have h5: "\<exists>x \<in> set (map fst (dict_keys (inventory_lookup dune_session))).
          default_cutoff \<le> same_string_ratio x (strip (lower ''Dune ''))"
    by (simp add: dune_session_index dict_keys_def norm_dune_sp same_string_ratio_def default_cutoff_def)
  from fuzzy_match_ignores_author[where ratio = same_string_ratio and st = dune_session
      and t = "''Dune ''" and a = "''Unknown Author''" and cutoff = default_cutoff, OF h1 h2 h3 h4 h5]
  obtain best e where be: "best \<in> set (map fst (dict_keys (inventory_lookup dune_session)))"
    "find (\<lambda>e. fst (fst e) = best) (inventory_lookup dune_session) = Some e"
    "fst (find_in_inventory same_string_ratio dune_session ''Dune '' ''Unknown Author'' default_cutoff) = Inr (snd e)"
    by blast
  from be(1) have "best = ''dune''" by (simp add: dune_session_index dict_keys_def)
  with be(2) have "snd e = ''yes''" by (auto simp add: dune_session_index)
  with be(3) h1 h2 h3 h4 h5 show ?thesis by simp
qed

theorem fails_only_on_fuzzy_path_with_bad_cutoff_witness:
  "\<not> (0 \<le> (2::real) \<and> (2::real) \<le> 1)
   \<and> (strip (lower ''Foundation''), strip (lower ''Isaac Asimov'')) \<notin> set (dict_keys (inventory_lookup dune_session))
   \<and> fst (find_in_inventory same_string_ratio dune_session ''Foundation'' ''Isaac Asimov'' 2) = Inl ValueError
   \<and> (strip (lower ''Dune''), strip (lower ''Frank Herbert'')) \<in> set (dict_keys (inventory_lookup dune_session))
   \<and> find_in_inventory same_string_ratio dune_session ''Dune'' ''Frank Herbert'' 2 = (Inr ''yes'', dune_session)
   \<and> 0 \<le> default_cutoff \<and> default_cutoff \<le> 1
   \<and> (\<exists>v. fst (find_in_inventory same_string_ratio dune_session ''Foundation'' ''Isaac Asimov'' default_cutoff) = Inr v)"
proof -
  have h1: "(strip (lower ''Foundation''), strip (lower ''Isaac Asimov'')) \<notin> set (dict_keys (inventory_lookup dune_session))"
    by (simp add: dune_session_index dict_keys_def norm_foundation norm_asimov)
  have h2: "(strip (lower ''Dune''), strip (lower ''Frank Herbert'')) \<in> set (dict_keys (inventory_lookup dune_session))"
    by (simp add: dune_session_index dict_keys_def norm_dune norm_herbert)
  have m: "map_of (inventory_lookup dune_session) (strip (lower ''Dune''), strip (lower ''Frank Herbert'')) = Some ''yes''"
    by (simp add: dune_session_index norm_dune norm_herbert)
  have b: "\<not> (0 \<le> (2::real) \<and> (2::real) \<le> 1)" by simp
  have h3: "0 \<le> default_cutoff \<and> default_cutoff \<le> 1" by (simp add: default_cutoff_def)
  from fails_only_on_fuzzy_path_with_bad_cutoff[where cutoff = 2 and ratio = same_string_ratio and st = dune_session
      and t = "''Foundation''" and a = "''Isaac Asimov''"] h1 b
  have r1: "fst (find_in_inventory same_string_ratio dune_session ''Foundation'' ''Isaac Asimov'' 2) = Inl ValueError"
    by simp
  from fails_only_on_fuzzy_path_with_bad_cutoff[where cutoff = 2 and ratio = same_string_ratio and st = dune_session
      and t = "''Dune''" and a = "''Frank Herbert''"] h2 b m
  have r2: "find_in_inventory same_string_ratio dune_session ''Dune'' ''Frank Herbert'' 2 = (Inr ''yes'', dune_session)"
    by auto
  from fails_only_on_fuzzy_path_with_bad_cutoff[where cutoff = default_cutoff and ratio = same_string_ratio
      and st = dune_session and t = "''Foundation''" and a = "''Isaac Asimov''"] h3
  have r3: "\<exists>v. fst (find_in_inventory same_string_ratio dune_session ''Foundation'' ''Isaac Asimov'' default_cutoff) = Inr v"
    by blast
  from r1 r2 r3 h1 h2 h3 b show ?thesis by blast
qed

text \<open>
  Claim C7 as stated says that every cutoff outside \<open>[0, 1]\<close> makes the resolver
  fail.  With the cutoff 2 and a pair that is a key of the index it returns the entry's
  availability.
\<close>

theorem raises_on_every_bad_cutoff_counterexample:
  "\<not> (0 \<le> (2::real) \<and> (2::real) \<le> 1)
   \<and> find_in_inventory same_string_ratio dune_session ''Dune'' ''Frank Herbert'' 2 = (Inr ''yes'', dune_session)"
proof -
  have keys: "(strip (lower ''Dune''), strip (lower ''Frank Herbert'')) \<in> set (dict_keys (inventory_lookup dune_session))"
    by (simp add: dune_session_index dict_keys_def norm_dune norm_herbert)
  have "dict_get (inventory_lookup dune_session) (strip (lower ''Dune''), strip (lower ''Frank Herbert'')) = Inr ''yes''"
    by (simp add: dune_session_index dict_get_def norm_dune norm_herbert)
  with keys show ?thesis by (simp add: find_in_inventory_def)
qed

section \<open>Properties of the catalog store\<close>

lemma set_dict_set: "set (dict_set k v d) \<subseteq> insert (k, v) (set d)"
  by (induction d) auto

lemma foldl_index_entry_entries:
  "set (foldl index_entry d bs) \<subseteq>
     set d \<union> (\<lambda>b. ((strip (lower (title b)), strip (lower (author b))), available b)) ` set bs"
proof (induction bs arbitrary: d)
  case Nil
  then show ?case by simp
next
  case (Cons b bs)
  have "set (index_entry d b) \<subseteq>
      insert ((strip (lower (title b)), strip (lower (author b))), available b) (set d)"
    unfolding index_entry_def by (rule set_dict_set)
  with Cons.IH[of "index_entry d b"] show ?case by auto
qed

lemma index_of_entries:
  "set (index_of inventory) \<subseteq>
     (\<lambda>b. ((strip (lower (title b)), strip (lower (author b))), available b)) ` set inventory"
  using foldl_index_entry_entries[of "[]" inventory] by (simp add: index_of_def)

lemma dict_keys_dict_set:
  "dict_keys (dict_set k v d) = (if k \<in> set (dict_keys d) then dict_keys d else dict_keys d @ [k])"
  by (induction d) (auto simp: dict_keys_def)

lemma distinct_foldl_index_entry:
  "distinct (dict_keys d) \<Longrightarrow> distinct (dict_keys (foldl index_entry d bs))"
  by (induction bs arbitrary: d) (simp_all add: index_entry_def dict_keys_dict_set)

lemma distinct_index_of: "distinct (dict_keys (index_of inventory))"
  using distinct_foldl_index_entry[of "[]" inventory] by (simp add: index_of_def dict_keys_def)

lemma build_inventory_lookup_from:
  assumes "caches_from inventory c"
  shows "fst (build_inventory_lookup (Inr inventory) c) = Inr (index_of inventory)"
    and "caches_from inventory (snd (build_inventory_lookup (Inr inventory) c))"
  using assms
  by (auto simp: caches_from_def build_inventory_lookup_def load_inventory_def
           split: option.splits)

text \<open>
  Claim C8.  While the catalog file decodes to the same inventory, and each of the two
  caches is empty or holds what was computed from that inventory, building the index
  returns \<open>index_of inventory\<close>: on a first call, on a second call that finds the
  caches filled, and on a call after the caches were cleared.  Every entry of the
  index comes from an entry of the inventory, normalized.
\<close>

theorem rebuild_gives_same_index:
  assumes "caches_from inventory c"
  shows "fst (build_inventory_lookup (Inr inventory) c) = Inr (index_of inventory)
       \<and> fst (build_inventory_lookup (Inr inventory)
                (snd (build_inventory_lookup (Inr inventory) c))) = Inr (index_of inventory)
       \<and> fst (build_inventory_lookup (Inr inventory)
                (cache_clear (snd (build_inventory_lookup (Inr inventory) c)))) = Inr (index_of inventory)
       \<and> set (index_of inventory) \<subseteq>
            (\<lambda>b. ((strip (lower (title b)), strip (lower (author b))), available b)) ` set inventory"
proof -
  have c1: "caches_from inventory (snd (build_inventory_lookup (Inr inventory) c))"
    using assms by (rule build_inventory_lookup_from(2))
  have c2: "caches_from inventory (cache_clear (snd (build_inventory_lookup (Inr inventory) c)))"
    by (simp add: caches_from_def cache_clear_def)
  show ?thesis
    using build_inventory_lookup_from(1)[OF assms] build_inventory_lookup_from(1)[OF c1]
      build_inventory_lookup_from(1)[OF c2] index_of_entries[of inventory]
    by simp
qed

theorem rebuild_gives_same_index_witness:
  "caches_from dune_catalog no_caches
   \<and> fst (build_inventory_lookup (Inr dune_catalog) no_caches)
       = Inr [((''dune'', ''frank herbert''), ''yes'')]
   \<and> fst (build_inventory_lookup (Inr dune_catalog)
            (cache_clear (snd (build_inventory_lookup (Inr dune_catalog) no_caches))))
       = Inr [((''dune'', ''frank herbert''), ''yes'')]"
proof -
  have h: "caches_from dune_catalog no_caches" by (simp add: caches_from_def no_caches_def)
  from rebuild_gives_same_index[OF h] h show ?thesis by (simp add: dune_index)
qed

section \<open>Properties of the parser\<close>

lemma strip_where_decomp:
  "\<exists>pre suf. s = pre @ strip_where p s @ suf
      \<and> list_all p pre \<and> list_all p suf
      \<and> (strip_where p s = [] \<or> (\<not> p (hd (strip_where p s)) \<and> \<not> p (last (strip_where p s))))"
proof -
  define m where "m = dropWhile p s"
  define k where "k = dropWhile p (rev m)"
  have s: "s = takeWhile p s @ m" by (simp add: m_def)
  have "rev m = takeWhile p (rev m) @ k" by (simp add: k_def)
  then have "rev (rev m) = rev (takeWhile p (rev m) @ k)" by simp
  then have m: "m = rev k @ rev (takeWhile p (rev m))" by simp
  have sw: "strip_where p s = rev k" by (simp add: strip_where_def m_def k_def)
  have pre: "list_all p (takeWhile p s)"
    by (auto simp: list_all_iff dest: set_takeWhileD)
  have suf: "list_all p (rev (takeWhile p (rev m)))"
    by (auto simp: list_all_iff dest: set_takeWhileD)
  have ends: "\<not> p (hd (rev k)) \<and> \<not> p (last (rev k))" if ne: "rev k \<noteq> []"
  proof -
    from ne have kne: "k \<noteq> []" by simp
    then have "\<not> p (hd k)" unfolding k_def by (rule hd_dropWhile)
    then have l: "\<not> p (last (rev k))" using kne by (simp add: last_rev)
    from ne m have "m \<noteq> []" by auto
    then have "\<not> p (hd m)" unfolding m_def by (rule hd_dropWhile)
    moreover have "hd m = hd (rev k)" using m ne by (metis hd_append2)
    ultimately show ?thesis using l by simp
  qed
  have "s = takeWhile p s @ strip_where p s @ rev (takeWhile p (rev m))"
    using s m sw by simp
  then show ?thesis using pre suf ends sw by metis
qed

lemma split_once_decomp:
  "sep \<in> set s \<Longrightarrow> s = fst (split_once sep s) @ sep # snd (split_once sep s)
      \<and> sep \<notin> set (fst (split_once sep s))"
proof -
  assume "sep \<in> set s"
  then have ne: "dropWhile (\<lambda>x. x \<noteq> sep) s \<noteq> []" by (simp add: dropWhile_eq_Nil_conv)
  then have "hd (dropWhile (\<lambda>x. x \<noteq> sep) s) = sep" using hd_dropWhile[of "\<lambda>x. x \<noteq> sep" s] by simp
  with ne have "dropWhile (\<lambda>x. x \<noteq> sep) s = sep # drop 1 (dropWhile (\<lambda>x. x \<noteq> sep) s)"
    by (cases "dropWhile (\<lambda>x. x \<noteq> sep) s") simp_all
  moreover have "s = takeWhile (\<lambda>x. x \<noteq> sep) s @ dropWhile (\<lambda>x. x \<noteq> sep) s" by simp
  moreover have "sep \<notin> set (takeWhile (\<lambda>x. x \<noteq> sep) s)"
    using set_takeWhileD[of sep "\<lambda>x. x \<noteq> sep" s] by blast
  ultimately show ?thesis by (simp add: split_once_def)
qed

lemma split_acc_no_sep: "sep \<notin> set s \<Longrightarrow> split_acc sep cur s = [rev cur @ s]"
  by (induction s arbitrary: cur) auto

lemma split_no_sep: "sep \<notin> set s \<Longrightarrow> split sep s = [s]"
  by (simp add: split_def split_acc_no_sep)

lemma parse_line_append: "parse_line line book_tasks = book_tasks @ parse_line line []"
  by (simp add: parse_line_def Let_def)

lemma foldl_parse_line:
  "foldl (\<lambda>book_tasks line. parse_line line book_tasks) acc ls
     = acc @ concat (map (\<lambda>line. parse_line line []) ls)"
proof (induction ls arbitrary: acc)
  case Nil
  then show ?case by simp
next
  case (Cons l ls)
  show ?case by (simp add: Cons.IH[of "parse_line l acc"]) (subst parse_line_append, simp)
qed

lemma parse_books_concat:
  "parse_books suggestions = concat (map (\<lambda>line. parse_line line []) (split CHR 0x0A suggestions))"
  by (simp add: parse_books_def foldl_parse_line)

lemma parse_books_one_line:
  assumes "CHR ''-'' \<in> set line" "CHR 0x0A \<notin> set line"
  shows "parse_books line =
     (if strip (strip_chars ''1234567890. '' (fst (split_once CHR ''-'' line))) = []
         \<or> strip (snd (split_once CHR ''-'' line)) = []
      then []
      else [(strip (strip_chars ''1234567890. '' (fst (split_once CHR ''-'' line))),
             strip (snd (split_once CHR ''-'' line)))])"
  using assms by (simp add: parse_books_concat split_no_sep parse_line_def Let_def)

lemma parse_books_fahrenheit:
  "parse_books ''1. Fahrenheit 451 - Ray Bradbury'' = [(''Fahrenheit'', ''Ray Bradbury'')]"
  by code_simp

text \<open>
  Claim C9, as amended.  For a line that contains \<^verbatim>\<open>-\<close> (and no line break), the text
  before the first \<^verbatim>\<open>-\<close> is \<open>pre @ mid @ suf\<close>, where \<open>pre\<close> and \<open>suf\<close> consist of
  digits, dots and spaces and \<open>mid\<close> neither starts nor ends with one; the parsed title
  is \<open>mid\<close> with its surrounding whitespace trimmed, the author is the trimmed text
  after the \<^verbatim>\<open>-\<close>, and the line gives no pair when either is empty.  So digits at the
  end of a title are removed with the numbering:
  \<^verbatim>\<open>1. Fahrenheit 451 - Ray Bradbury\<close> has the title \<^verbatim>\<open>Fahrenheit\<close>.
\<close>

theorem title_stripped_at_both_ends:
  "(CHR ''-'' \<in> set line \<and> CHR 0x0A \<notin> set line \<longrightarrow>
      (\<exists>before after pre mid suf.
          line = before @ CHR ''-'' # after \<and> CHR ''-'' \<notin> set before
        \<and> before = pre @ mid @ suf
        \<and> list_all (\<lambda>c. c \<in> set ''1234567890. '') pre
        \<and> list_all (\<lambda>c. c \<in> set ''1234567890. '') suf
        \<and> (mid = [] \<or> (hd mid \<notin> set ''1234567890. '' \<and> last mid \<notin> set ''1234567890. ''))
        \<and> parse_books line =
            (if strip mid = [] \<or> strip after = [] then [] else [(strip mid, strip after)])))
   \<and> parse_books ''1. Fahrenheit 451 - Ray Bradbury'' = [(''Fahrenheit'', ''Ray Bradbury'')]"
proof (intro conjI impI)
  assume a: "CHR ''-'' \<in> set line \<and> CHR 0x0A \<notin> set line"
  define before where "before = fst (split_once CHR ''-'' line)"
  define after where "after = snd (split_once CHR ''-'' line)"
  define mid where "mid = strip_chars ''1234567890. '' before"
  from a have l: "line = before @ CHR ''-'' # after" and nb: "CHR ''-'' \<notin> set before"
    using split_once_decomp[of "CHR ''-''" line] by (simp_all add: before_def after_def)
  from strip_where_decomp[of before "\<lambda>c. c \<in> set ''1234567890. ''"]
  obtain pre suf where d: "before = pre @ mid @ suf"
    "list_all (\<lambda>c. c \<in> set ''1234567890. '') pre"
    "list_all (\<lambda>c. c \<in> set ''1234567890. '') suf"
    "mid = [] \<or> (hd mid \<notin> set ''1234567890. '' \<and> last mid \<notin> set ''1234567890. '')"
    unfolding mid_def strip_chars_def by blast
  from a have p: "parse_books line =
      (if strip mid = [] \<or> strip after = [] then [] else [(strip mid, strip after)])"
    unfolding mid_def before_def after_def
    using parse_books_one_line[of line] by blast
  from l nb d p
  show "\<exists>before after pre mid suf.
          line = before @ CHR ''-'' # after \<and> CHR ''-'' \<notin> set before
        \<and> before = pre @ mid @ suf
        \<and> list_all (\<lambda>c. c \<in> set ''1234567890. '') pre
        \<and> list_all (\<lambda>c. c \<in> set ''1234567890. '') suf
        \<and> (mid = [] \<or> (hd mid \<notin> set ''1234567890. '' \<and> last mid \<notin> set ''1234567890. ''))
        \<and> parse_books line =
            (if strip mid = [] \<or> strip after = [] then [] else [(strip mid, strip after)])"
    by blast
next
  show "parse_books ''1. Fahrenheit 451 - Ray Bradbury'' = [(''Fahrenheit'', ''Ray Bradbury'')]"
    by (rule parse_books_fahrenheit)
qed

theorem title_stripped_at_both_ends_witness:
  "CHR ''-'' \<in> set ''3. Emma - Jane Austen'' \<and> CHR 0x0A \<notin> set ''3. Emma - Jane Austen''
   \<and> (\<exists>before after pre mid suf.
          ''3. Emma - Jane Austen'' = before @ CHR ''-'' # after \<and> CHR ''-'' \<notin> set before
        \<and> before = pre @ mid @ suf
        \<and> list_all (\<lambda>c. c \<in> set ''1234567890. '') pre
        \<and> list_all (\<lambda>c. c \<in> set ''1234567890. '') suf
        \<and> (mid = [] \<or> (hd mid \<notin> set ''1234567890. '' \<and> last mid \<notin> set ''1234567890. ''))
        \<and> parse_books ''3. Emma - Jane Austen'' =
            (if strip mid = [] \<or> strip after = [] then [] else [(strip mid, strip after)]))"
proof -
  have h: "CHR ''-'' \<in> set ''3. Emma - Jane Austen'' \<and> CHR 0x0A \<notin> set ''3. Emma - Jane Austen''"
    by simp
  from title_stripped_at_both_ends[where line = "''3. Emma - Jane Austen''"] h
  show ?thesis by blast
qed

text \<open>
  Claim C9 as stated gives the title as the text before the first \<^verbatim>\<open>-\<close> with the
  digits, dots and spaces removed from both ends.  On the line \<^verbatim>\<open>1.<TAB>Dune - X\<close>
  that text is \<^verbatim>\<open><TAB>Dune\<close>, and the parsed title is \<^verbatim>\<open>Dune\<close>: the source trims
  whitespace afterwards.
\<close>

theorem title_without_whitespace_trim_counterexample:
  "parse_books (''1.'' @ CHR 0x09 # ''Dune - X'') = [(''Dune'', ''X'')]
   \<and> strip_chars ''1234567890. '' (fst (split_once CHR ''-'' (''1.'' @ CHR 0x09 # ''Dune - X'')))
       = CHR 0x09 # ''Dune''"
  by code_simp

text \<open>
  Claim C4.  The claim takes the title to be the text before the first \<^verbatim>\<open>-\<close> without
  its list numbering and surrounding whitespace.  The source strips digits, dots and
  spaces from the end of that text as well: the title \<^verbatim>\<open>Apollo 13\<close> comes out as
  \<^verbatim>\<open>Apollo\<close>, and the line of the title \<^verbatim>\<open>1984\<close> gives no book at all.
\<close>

theorem trailing_title_digits_lost:
  "parse_books ''2. Apollo 13 - Jim Lovell'' = [(''Apollo'', ''Jim Lovell'')]
   \<and> parse_books ''1. 1984 - George Orwell'' = []"
  by code_simp

text \<open>The example of the specification: three lines, two books.\<close>

lemma parse_books_spec_example:
  "parse_books (''1. Dune - Frank Herbert'' @ CHR 0x0A # ''2. '' @ CHR 0x0A # ''3. Foundation - Isaac Asimov'')
     = [(''Dune'', ''Frank Herbert''), (''Foundation'', ''Isaac Asimov'')]"
  by code_simp

section \<open>Properties of the cover fetcher and the aggregator\<close>

lemma find_in_inventory_view:
  assumes "inventory_lookup st = inventory_lookup st2" "titles_used st = titles_used st2"
  shows "fst (find_in_inventory ratio st t a c) = fst (find_in_inventory ratio st2 t a c)"
proof (cases "(strip (lower t), strip (lower a)) \<in> set (dict_keys (inventory_lookup st))")
  case True
  then show ?thesis using assms(1) by (simp add: find_in_inventory_def)
next
  case False
  then have F2: "(strip (lower t), strip (lower a)) \<notin> set (dict_keys (inventory_lookup st2))"
    using assms(1) by simp
  have e1: "fst (find_in_inventory ratio st t a c) =
     (case get_close_matches ratio (strip (lower t)) (titles_used st) 1 c of
        Inl e \<Rightarrow> Inl e
      | Inr [] \<Rightarrow> Inr not_in_inventory
      | Inr (best # rest) \<Rightarrow>
          (case find (\<lambda>e. fst (fst e) = best) (inventory_lookup st) of
             None \<Rightarrow> Inr not_in_inventory
           | Some e \<Rightarrow> Inr (snd e)))"
    by (simp only: find_in_inventory_fuzzy[OF False] titles_used_def)
  have e2: "fst (find_in_inventory ratio st2 t a c) =
     (case get_close_matches ratio (strip (lower t)) (titles_used st2) 1 c of
        Inl e \<Rightarrow> Inl e
      | Inr [] \<Rightarrow> Inr not_in_inventory
      | Inr (best # rest) \<Rightarrow>
          (case find (\<lambda>e. fst (fst e) = best) (inventory_lookup st2) of
             None \<Rightarrow> Inr not_in_inventory
           | Some e \<Rightarrow> Inr (snd e)))"
    by (simp only: find_in_inventory_fuzzy[OF F2] titles_used_def)
  show ?thesis by (simp only: e1 e2 assms)
qed

lemma find_in_inventory_keeps_view:
  "inventory_lookup (snd (find_in_inventory ratio st t a c)) = inventory_lookup st
   \<and> titles_used (snd (find_in_inventory ratio st t a c)) = titles_used st"
  by (simp add: find_in_inventory_def Let_def titles_used_def
           split: sum.splits list.splits option.splits)

lemma fetch_single_book_data_view:
  assumes "inventory_lookup st = inventory_lookup st2" "titles_used st = titles_used st2"
  shows "fst (fetch_single_book_data ratio http st t a) = fst (fetch_single_book_data ratio http st2 t a)"
proof -
  have "fst (find_in_inventory ratio st t a default_cutoff)
      = fst (find_in_inventory ratio st2 t a default_cutoff)"
    using assms by (rule find_in_inventory_view)
  then show ?thesis
    by (cases "find_in_inventory ratio st t a default_cutoff";
        cases "find_in_inventory ratio st2 t a default_cutoff")
       (auto simp: fetch_single_book_data_def split: sum.splits)
qed

lemma fetch_single_book_data_keeps_view:
  "inventory_lookup (snd (fetch_single_book_data ratio http st t a)) = inventory_lookup st
   \<and> titles_used (snd (fetch_single_book_data ratio http st t a)) = titles_used st"
proof -
  have "snd (fetch_single_book_data ratio http st t a) = snd (find_in_inventory ratio st t a default_cutoff)"
    by (cases "find_in_inventory ratio st t a default_cutoff")
       (auto simp: fetch_single_book_data_def split: sum.splits)
  then show ?thesis by (simp add: find_in_inventory_keeps_view)
qed

lemma submit_all_outcomes:
  assumes "inventory_lookup st = inventory_lookup st0" "titles_used st = titles_used st0"
  shows "fst (submit_all ratio http st book_tasks)
       = map (\<lambda>task. fst (fetch_single_book_data ratio http st0 (fst task) (snd task))) book_tasks"
  using assms
proof (induction book_tasks arbitrary: st)
  case Nil
  then show ?case by simp
next
  case (Cons task book_tasks)
  obtain t a where task: "task = (t, a)" by (cases task)
  obtain outcome st1 where f: "fetch_single_book_data ratio http st t a = (outcome, st1)"
    by (cases "fetch_single_book_data ratio http st t a")
  have o: "outcome = fst (fetch_single_book_data ratio http st0 t a)"
    using fetch_single_book_data_view[OF Cons.prems, of ratio http t a] f by simp
  have v: "inventory_lookup st1 = inventory_lookup st0" "titles_used st1 = titles_used st0"
    using fetch_single_book_data_keeps_view[of ratio http st t a] f Cons.prems by simp_all
  obtain outcomes st2 where r: "submit_all ratio http st1 book_tasks = (outcomes, st2)"
    by (cases "submit_all ratio http st1 book_tasks")
  from Cons.IH[OF v] r have "outcomes
      = map (\<lambda>task. fst (fetch_single_book_data ratio http st0 (fst task) (snd task))) book_tasks"
    by simp
  then show ?case using f o task r by simp
qed

lemma get_book_cover_local:
  "http (cover_url t a) = http2 (cover_url t a) \<Longrightarrow> get_book_cover http t a = get_book_cover http2 t a"
  by (simp add: get_book_cover_def get_book_cover_try_def)

text \<open>The cases the \<^verbatim>\<open>except\<close> clause and the guards do cover.\<close>

lemma get_book_cover_request_failed:
  "http (cover_url t a) = Inl RequestException \<Longrightarrow> get_book_cover http t a = Inr JNull"
  by (simp add: get_book_cover_def get_book_cover_try_def and_then_def)

lemma get_book_cover_no_items:
  "http (cover_url t a) = Inr (JObj d) \<Longrightarrow> ''items'' \<notin> set (dict_keys d)
     \<Longrightarrow> get_book_cover http t a = Inr JNull"
  by (simp add: get_book_cover_def get_book_cover_try_def and_then_def py_in_def)

lemma get_book_cover_no_thumbnail:
  "get_book_cover (always (JObj [(''items'', JArr [JObj [(''volumeInfo'', JObj [])]])])) t a = Inr JNull"
  by (simp add: get_book_cover_def get_book_cover_try_def and_then_def py_in_def always_def
        dict_keys_def py_getitem_def dict_get_def truthy_def py_getitem0_def py_get_def)

lemma get_book_cover_thumbnail:
  "get_book_cover (always dune_volume) ''Dune'' ''Frank Herbert''
     = Inr (JStr ''https://books.google.com/c?id=B1&zoom=1&source=gbs_api'')"
  by code_simp

text \<open>
  Claim C6.  The claim is that \<^verbatim>\<open>get_book_cover\<close> never raises.  The \<^verbatim>\<open>except\<close>
  clause catches \<^verbatim>\<open>RequestException\<close>, \<^verbatim>\<open>KeyError\<close> and \<^verbatim>\<open>IndexError\<close> only: on the
  body \<^verbatim>\<open>{"items": [{"volumeInfo": {"imageLinks": null}}]}\<close> the call
  \<^verbatim>\<open>.get("imageLinks", {})\<close> gives \<^verbatim>\<open>None\<close>, \<^verbatim>\<open>None.get("thumbnail")\<close> raises
  \<^verbatim>\<open>AttributeError\<close>, and the exception reaches the caller.
\<close>

theorem get_book_cover_raises_on_null_image_links:
  "get_book_cover (always null_image_links) ''Dune'' ''Frank Herbert'' = Inl AttributeError"
  by code_simp

lemma results_nth:
  assumes k: "k < length completion" and i: "completion ! k < length (parse_books suggestions)"
  shows "fst (check_inventory_with_images ratio http st completion suggestions) ! k
       = collect (parse_books suggestions ! (completion ! k))
           (fst (fetch_single_book_data ratio http st
                   (fst (parse_books suggestions ! (completion ! k)))
                   (snd (parse_books suggestions ! (completion ! k)))))"
proof -
  obtain outcomes st1 where r: "submit_all ratio http st (parse_books suggestions) = (outcomes, st1)"
    by (cases "submit_all ratio http st (parse_books suggestions)")
  have o: "outcomes = map (\<lambda>task. fst (fetch_single_book_data ratio http st (fst task) (snd task)))
             (parse_books suggestions)"
    using submit_all_outcomes[of st st ratio http "parse_books suggestions"] r by simp
  have "fst (check_inventory_with_images ratio http st completion suggestions) ! k
      = collect (parse_books suggestions ! (completion ! k)) (outcomes ! (completion ! k))"
    using k r by (simp add: check_inventory_with_images_def Let_def)
  also have "outcomes ! (completion ! k)
      = fst (fetch_single_book_data ratio http st
               (fst (parse_books suggestions ! (completion ! k)))
               (snd (parse_books suggestions ! (completion ! k))))"
    using i by (simp add: o)
  finally show ?thesis .
qed

lemma results_length:
  "length (fst (check_inventory_with_images ratio http st completion suggestions)) = length completion"
  by (simp add: check_inventory_with_images_def Let_def split: prod.splits)

lemma fetch_single_book_data_local:
  "http (cover_url t a) = http2 (cover_url t a) \<Longrightarrow>
     fetch_single_book_data ratio http st t a = fetch_single_book_data ratio http2 st t a"
proof -
  assume "http (cover_url t a) = http2 (cover_url t a)"
  then have "get_book_cover http t a = get_book_cover http2 t a" by (rule get_book_cover_local)
  then show ?thesis by (simp only: fetch_single_book_data_def)
qed

text \<open>
  Claim C5.  For a text that parses into \<open>N\<close> pairs and every order of completion,
  \<^verbatim>\<open>check_inventory_with_images\<close> returns \<open>N\<close> records, one for every parsed book.
  The record of a book is the result of its own task, or, when that task raised, the
  record with availability \<^verbatim>\<open>"Error"\<close> and no cover; it stays the same when the
  server answers the queries of the other books differently, whether they fail or
  not.
\<close>

theorem every_parsed_book_gets_a_record:
  assumes d: "distinct completion"
    and s: "set completion = {0..<length (parse_books suggestions)}"
  shows "length (fst (check_inventory_with_images ratio http st completion suggestions))
           = length (parse_books suggestions)
       \<and> (\<forall>i < length (parse_books suggestions). \<exists>k < length (parse_books suggestions).
             completion ! k = i)
       \<and> (\<forall>k < length (parse_books suggestions).
             fst (check_inventory_with_images ratio http st completion suggestions) ! k
               = (case fst (fetch_single_book_data ratio http st
                              (fst (parse_books suggestions ! (completion ! k)))
                              (snd (parse_books suggestions ! (completion ! k)))) of
                    Inr result \<Rightarrow> result
                  | Inl e \<Rightarrow> \<lparr>result_title = fst (parse_books suggestions ! (completion ! k)),
                               result_author = snd (parse_books suggestions ! (completion ! k)),
                               availability = ''Error'', cover = JNull\<rparr>))
       \<and> (\<forall>http2. \<forall>k < length (parse_books suggestions).
             http2 (cover_url (fst (parse_books suggestions ! (completion ! k)))
                              (snd (parse_books suggestions ! (completion ! k))))
               = http (cover_url (fst (parse_books suggestions ! (completion ! k)))
                                 (snd (parse_books suggestions ! (completion ! k))))
             \<longrightarrow> fst (check_inventory_with_images ratio http2 st completion suggestions) ! k
                 = fst (check_inventory_with_images ratio http st completion suggestions) ! k)"
proof -
  let ?tasks = "parse_books suggestions"
  have len: "length completion = length ?tasks"
    using distinct_card[OF d] s by simp
  have inb: "completion ! k < length ?tasks" if "k < length ?tasks" for k
  proof -
    from that len have "completion ! k \<in> set completion" by simp
    with s show ?thesis by simp
  qed
  have c1: "length (fst (check_inventory_with_images ratio http st completion suggestions)) = length ?tasks"
    by (simp add: results_length len)
  have c2: "\<forall>i < length ?tasks. \<exists>k < length ?tasks. completion ! k = i"
  proof (intro allI impI)
    fix i assume "i < length ?tasks"
    with s have "i \<in> set completion" by simp
    then obtain k where "k < length completion" "completion ! k = i"
      by (auto simp: in_set_conv_nth)
    with len show "\<exists>k < length ?tasks. completion ! k = i" by auto
  qed
  have c3: "\<forall>k < length ?tasks.
             fst (check_inventory_with_images ratio http st completion suggestions) ! k
               = (case fst (fetch_single_book_data ratio http st
                              (fst (?tasks ! (completion ! k))) (snd (?tasks ! (completion ! k)))) of
                    Inr result \<Rightarrow> result
                  | Inl e \<Rightarrow> \<lparr>result_title = fst (?tasks ! (completion ! k)),
                               result_author = snd (?tasks ! (completion ! k)),
                               availability = ''Error'', cover = JNull\<rparr>)"
  proof (intro allI impI)
    fix k assume k: "k < length ?tasks"
    from k len have kc: "k < length completion" by simp
    show "fst (check_inventory_with_images ratio http st completion suggestions) ! k
               = (case fst (fetch_single_book_data ratio http st
                              (fst (?tasks ! (completion ! k))) (snd (?tasks ! (completion ! k)))) of
                    Inr result \<Rightarrow> result
                  | Inl e \<Rightarrow> \<lparr>result_title = fst (?tasks ! (completion ! k)),
                               result_author = snd (?tasks ! (completion ! k)),
                               availability = ''Error'', cover = JNull\<rparr>)"
      unfolding results_nth[OF kc inb[OF k]] collect_def by (simp split: sum.splits)
  qed
  have c4: "\<forall>http2. \<forall>k < length ?tasks.
             http2 (cover_url (fst (?tasks ! (completion ! k))) (snd (?tasks ! (completion ! k))))
               = http (cover_url (fst (?tasks ! (completion ! k))) (snd (?tasks ! (completion ! k))))
             \<longrightarrow> fst (check_inventory_with_images ratio http2 st completion suggestions) ! k
                 = fst (check_inventory_with_images ratio http st completion suggestions) ! k"
  proof (intro allI impI)
    fix http2 k
    assume k: "k < length ?tasks"
      and e: "http2 (cover_url (fst (?tasks ! (completion ! k))) (snd (?tasks ! (completion ! k))))
               = http (cover_url (fst (?tasks ! (completion ! k))) (snd (?tasks ! (completion ! k))))"
    from k len have kc: "k < length completion" by simp
    show "fst (check_inventory_with_images ratio http2 st completion suggestions) ! k
                 = fst (check_inventory_with_images ratio http st completion suggestions) ! k"
      unfolding results_nth[OF kc inb[OF k]]
      by (simp only: fetch_single_book_data_local[where http = http2 and ?http2.0 = http
            and t = "fst (?tasks ! (completion ! k))" and a = "snd (?tasks ! (completion ! k))", OF e])
  qed
  from c1 c2 c3 c4 show ?thesis by (intro conjI)
qed

lemma parse_two_books:
  "parse_books two_books = [(''Dune'', ''Frank Herbert''), (''Emma'', ''Jane Austen'')]"
  by code_simp

lemma fetch_dune:
  "fst (fetch_single_book_data same_string_ratio emma_fails dune_session ''Dune'' ''Frank Herbert'')
     = Inr \<lparr>result_title = ''Dune'', result_author = ''Frank Herbert'', availability = ''yes'',
            cover = JStr ''https://books.google.com/c?id=B1&zoom=1&source=gbs_api''\<rparr>"
  by code_simp

lemma fetch_emma:
  "fst (fetch_single_book_data same_string_ratio emma_fails dune_session ''Emma'' ''Jane Austen'')
     = Inl AttributeError"
  by code_simp

theorem every_parsed_book_gets_a_record_witness:
  "distinct [1::nat, 0] \<and> set [1::nat, 0] = {0..<length (parse_books two_books)}
   \<and> length (fst (check_inventory_with_images same_string_ratio emma_fails dune_session [1, 0] two_books)) = 2
   \<and> fst (check_inventory_with_images same_string_ratio emma_fails dune_session [1, 0] two_books) ! 0
       = \<lparr>result_title = ''Emma'', result_author = ''Jane Austen'', availability = ''Error'', cover = JNull\<rparr>
   \<and> fst (check_inventory_with_images same_string_ratio emma_fails dune_session [1, 0] two_books) ! 1
       = \<lparr>result_title = ''Dune'', result_author = ''Frank Herbert'', availability = ''yes'',
           cover = JStr ''https://books.google.com/c?id=B1&zoom=1&source=gbs_api''\<rparr>"
proof -
  have h1: "distinct [1::nat, 0]" by simp
  have h2: "set [1::nat, 0] = {0..<length (parse_books two_books)}"
    by (auto simp: parse_two_books)
  note t = every_parsed_book_gets_a_record[where completion = "[1, 0]" and suggestions = two_books
      and ratio = same_string_ratio and http = emma_fails and st = dune_session, OF h1 h2]
  from t have l: "length (fst (check_inventory_with_images same_string_ratio emma_fails dune_session [1, 0] two_books)) = 2"
    by (simp add: parse_two_books)
  from t have a: "\<forall>k < length (parse_books two_books).
             fst (check_inventory_with_images same_string_ratio emma_fails dune_session [1, 0] two_books) ! k
               = (case fst (fetch_single_book_data same_string_ratio emma_fails dune_session
                              (fst (parse_books two_books ! ([1, 0] ! k)))
                              (snd (parse_books two_books ! ([1, 0] ! k)))) of
                    Inr result \<Rightarrow> result
                  | Inl e \<Rightarrow> \<lparr>result_title = fst (parse_books two_books ! ([1, 0] ! k)),
                               result_author = snd (parse_books two_books ! ([1, 0] ! k)),
                               availability = ''Error'', cover = JNull\<rparr>)"
    by (elim conjE)
  from a[rule_format, of 0] have r0:
    "fst (check_inventory_with_images same_string_ratio emma_fails dune_session [1, 0] two_books) ! 0
       = \<lparr>result_title = ''Emma'', result_author = ''Jane Austen'', availability = ''Error'', cover = JNull\<rparr>"
    by (simp add: parse_two_books fetch_emma)
  from a[rule_format, of 1] have r1:
    "fst (check_inventory_with_images same_string_ratio emma_fails dune_session [1, 0] two_books) ! 1
       = \<lparr>result_title = ''Dune'', result_author = ''Frank Herbert'', availability = ''yes'',
           cover = JStr ''https://books.google.com/c?id=B1&zoom=1&source=gbs_api''\<rparr>"
    by (simp add: parse_two_books fetch_dune)
  from h1 h2 l r0 r1 show ?thesis by (intro conjI)
qed

end
